theory Spec2Isabelle
  imports Complex_Main
begin

section \<open>Python values used by the client\<close>

text \<open>
  The REST client of \<^verbatim>\<open>src/common/api_client.py\<close> and the credential and rate-limit
  helpers of \<^verbatim>\<open>src/common/auth.py\<close>, embedded as functions over an explicit state.
  Python exceptions are values of \<open>error\<close>; a function that can raise returns
  \<open>error + 'a\<close> with \<open>Inl\<close> for the exception. Python floats are modelled as reals
  (the arithmetic of the model is exact), \<^verbatim>\<open>datetime\<close> values as an integer count of
  microseconds, and the range limits of \<^verbatim>\<open>datetime\<close> and of float conversion are not
  modelled.
\<close>

datatype error =
    Timeout                  \<comment> \<open>\<^verbatim>\<open>requests.exceptions.Timeout\<close>\<close>
  | HTTPError int            \<comment> \<open>\<^verbatim>\<open>requests.exceptions.HTTPError\<close> of \<^verbatim>\<open>raise_for_status\<close>, with the status\<close>
  | RequestException         \<comment> \<open>any other \<^verbatim>\<open>requests.exceptions.RequestException\<close>\<close>
  | RetriesExhausted int     \<comment> \<open>\<^verbatim>\<open>RuntimeError("Failed after {max_attempts} attempts")\<close>\<close>
  | RateLimitExceeded int    \<comment> \<open>\<^verbatim>\<open>RuntimeError("Rate limit exceeded after {attempt} retries")\<close>\<close>
  | TokenFetchFailed         \<comment> \<open>\<^verbatim>\<open>RuntimeError("OAuth2 token fetch failed: ...")\<close>\<close>
  | NoAccessToken            \<comment> \<open>\<^verbatim>\<open>RuntimeError("Failed to obtain access token")\<close>\<close>
  | ValueError               \<comment> \<open>\<^verbatim>\<open>int()\<close> of a string that is no integer, \<^verbatim>\<open>time.sleep\<close> of a negative\<close>
  | KeyError
  | AttributeError
  | ZeroDivisionError

datatype json =
    JNull
  | JBool bool
  | JInt int
  | JFloat real
  | JStr string
  | JArr "json list"
  | JObj "(string \<times> json) list"   \<comment> \<open>the items of a dict; its keys are distinct\<close>

text \<open>Python truthiness, as \<^verbatim>\<open>if x:\<close> and \<^verbatim>\<open>not x\<close> test it.\<close>

fun truthy :: "json \<Rightarrow> bool" where
  "truthy JNull = False"
| "truthy (JBool b) = b"
| "truthy (JInt n) = (n \<noteq> 0)"
| "truthy (JFloat x) = (x \<noteq> 0)"
| "truthy (JStr s) = (s \<noteq> [])"
| "truthy (JArr xs) = (xs \<noteq> [])"
| "truthy (JObj kvs) = (kvs \<noteq> [])"

text \<open>\<^verbatim>\<open>d.get(key, default)\<close>; on a value that is no dict the attribute lookup fails.\<close>

fun dict_get :: "json \<Rightarrow> string \<Rightarrow> json \<Rightarrow> error + json" where
  "dict_get (JObj kvs) k d = Inr (case map_of kvs k of None \<Rightarrow> d | Some v \<Rightarrow> v)"
| "dict_get _ k d = Inl AttributeError"

text \<open>Truthiness of an optional string (\<^verbatim>\<open>None\<close> and \<^verbatim>\<open>""\<close> are falsy).\<close>

fun str_truthy :: "string option \<Rightarrow> bool" where
  "str_truthy None = False"
| "str_truthy (Some s) = (s \<noteq> [])"

subsection \<open>\<^verbatim>\<open>int(s)\<close> on a string\<close>

text \<open>
  Python's \<^verbatim>\<open>int\<close> on a \<^verbatim>\<open>str\<close>: surrounding whitespace is dropped, then an optional
  sign, then decimal digits, where single underscores may stand between digits.
  Anything else raises \<^verbatim>\<open>ValueError\<close> (here \<open>None\<close>).
\<close>

definition py_isspace :: "char \<Rightarrow> bool" where
  "py_isspace c = (c \<in> {CHR 0x09, CHR 0x0A, CHR 0x0B, CHR 0x0C, CHR 0x0D,
                         CHR 0x1C, CHR 0x1D, CHR 0x1E, CHR 0x1F, CHR 0x20, CHR 0x85, CHR 0xA0})"

definition py_strip :: "string \<Rightarrow> string" where
  "py_strip s = rev (dropWhile py_isspace (rev (dropWhile py_isspace s)))"

definition digit_of :: "char \<Rightarrow> nat option" where
  "digit_of c = map_of (zip ''0123456789'' [0, 1, 2, 3, 4, 5, 6, 7, 8, 9]) c"

fun parse_digits :: "nat \<Rightarrow> string \<Rightarrow> nat option" where
  "parse_digits acc [] = Some acc"
| "parse_digits acc (c # cs) =
     (if c = CHR ''_'' then
        (case cs of
           [] \<Rightarrow> None
         | d # ds \<Rightarrow> (case digit_of d of
                        None \<Rightarrow> None
                      | Some k \<Rightarrow> parse_digits (10 * acc + k) ds))
      else (case digit_of c of
              None \<Rightarrow> None
            | Some k \<Rightarrow> parse_digits (10 * acc + k) cs))"

fun parse_nat :: "string \<Rightarrow> nat option" where
  "parse_nat [] = None"
| "parse_nat (c # cs) =
     (case digit_of c of None \<Rightarrow> None | Some k \<Rightarrow> parse_digits k cs)"

definition py_int :: "string \<Rightarrow> int option" where
  "py_int s =
     (case py_strip s of
        [] \<Rightarrow> None
      | c # cs \<Rightarrow>
          if c = CHR ''-'' then map_option (\<lambda>n. - int n) (parse_nat cs)
          else if c = CHR ''+'' then map_option int (parse_nat cs)
          else map_option int (parse_nat (c # cs)))"

section \<open>The network, the clock and the sleeps\<close>

text \<open>
  A response as the client reads it: \<open>headers r name\<close> is what
  \<^verbatim>\<open>response.headers.get(name)\<close> returns, \<open>body r\<close> what \<^verbatim>\<open>response.json()\<close> parses
  (\<open>None\<close> when the body is no JSON, which \<^verbatim>\<open>requests\<close> raises as a
  \<^verbatim>\<open>RequestException\<close>).
\<close>

record response =
  status_code :: int
  headers :: "string \<rightharpoonup> string"
  body :: "json option"

datatype outcome =
    Response response
  | TimedOut          \<comment> \<open>the session raises \<^verbatim>\<open>requests.exceptions.Timeout\<close>\<close>
  | Failed            \<comment> \<open>the session raises another \<^verbatim>\<open>RequestException\<close>\<close>

datatype http_method = GET | POST

record request =
  rq_method :: http_method
  rq_url :: string
  rq_params :: "(string \<rightharpoonup> json) option"
  rq_headers :: "string \<rightharpoonup> string"
  rq_json :: "json option"
  rq_data :: "json option"
  rq_timeout :: int

text \<open>What the token endpoint answers: the parsed token data, or a failed exchange.\<close>

record token_data =
  td_access_token :: "string option"   \<comment> \<open>\<open>None\<close>: the key \<^verbatim>\<open>access_token\<close> is missing\<close>
  td_expires_in :: "int option"        \<comment> \<open>\<open>None\<close>: the key \<^verbatim>\<open>expires_in\<close> is missing\<close>

datatype token_outcome =
    TokenData token_data
  | TokenFailed       \<comment> \<open>a \<^verbatim>\<open>RequestException\<close>: transport, error status or body\<close>

text \<open>
  Everything outside the program. \<open>http w n\<close> is what \<^verbatim>\<open>session.get\<close> or
  \<^verbatim>\<open>session.post\<close> gives for the \<open>n\<close>-th request of the client's session (a response
  or an exception, after whatever the retry adapter mounted on the session did on its
  own), \<open>http_log w\<close> the requests sent so far;
  \<open>token_endpoint w n\<close> is what the \<open>n\<close>-th token exchange gives and \<open>token_posts w\<close>
  counts the exchanges made; \<open>clock w n\<close> is the \<open>n\<close>-th reading of
  \<^verbatim>\<open>datetime.utcnow()\<close> in microseconds; \<open>slept w\<close> lists the durations passed to
  \<^verbatim>\<open>time.sleep\<close>, in seconds.
\<close>

record world =
  http :: "nat \<Rightarrow> outcome"
  http_log :: "request list"
  token_endpoint :: "nat \<Rightarrow> token_outcome"
  token_posts :: nat
  clock :: "nat \<Rightarrow> int"
  ticks :: nat
  slept :: "real list"

definition session_request :: "request \<Rightarrow> world \<Rightarrow> outcome \<times> world" where
  "session_request rq w = (http w (length (http_log w)), w\<lparr>http_log := http_log w @ [rq]\<rparr>)"

definition utcnow :: "world \<Rightarrow> int \<times> world" where
  "utcnow w = (clock w (ticks w), w\<lparr>ticks := Suc (ticks w)\<rparr>)"

definition timedelta_seconds :: "int \<Rightarrow> int" where
  "timedelta_seconds s = s * 1000000"

definition time_sleep :: "real \<Rightarrow> world \<Rightarrow> (error + unit) \<times> world" where
  "time_sleep d w =
     (if d < 0 then (Inl ValueError, w) else (Inr (), w\<lparr>slept := slept w @ [d]\<rparr>))"

section \<open>\<^verbatim>\<open>RateLimitHandler\<close>\<close>

record rate_limit_handler =
  max_retries :: int
  base_delay :: real

text \<open>\<^verbatim>\<open>2 ** attempt\<close>: an integer power, a float for a negative exponent.\<close>

definition py_pow2 :: "int \<Rightarrow> real" where
  "py_pow2 a = (if 0 \<le> a then 2 ^ nat a else 1 / 2 ^ nat (- a))"

definition handle_rate_limit ::
  "rate_limit_handler \<Rightarrow> response \<Rightarrow> int \<Rightarrow> world \<Rightarrow> (error + unit) \<times> world" where
  "handle_rate_limit h r attempt w =
     (if status_code r \<noteq> 429 then (Inr (), w)
      else if attempt \<ge> max_retries h then (Inl (RateLimitExceeded attempt), w)
      else
        let retry_after = headers r ''Retry-After'' in
        case (if str_truthy retry_after
              then (case py_int (the retry_after) of
                      None \<Rightarrow> Inl ValueError
                    | Some n \<Rightarrow> Inr (real_of_int n))
              else Inr (py_pow2 attempt * base_delay h)) of
          Inl e \<Rightarrow> (Inl e, w)
        | Inr wait_time \<Rightarrow> time_sleep wait_time w)"

text \<open>
  \<^verbatim>\<open>check_rate_limit_headers\<close> only logs; what it can do to the caller is raise when a
  header is no integer. \<open>None\<close>: it returned.
\<close>

definition check_rate_limit_headers :: "response \<Rightarrow> error option" where
  "check_rate_limit_headers r =
     (let remaining = headers r ''X-RateLimit-Remaining'';
          limit = headers r ''X-RateLimit-Limit''
      in if str_truthy remaining \<and> str_truthy limit then
           (case py_int (the remaining) of
              None \<Rightarrow> Some ValueError
            | Some n_remaining \<Rightarrow>
                (case py_int (the limit) of
                   None \<Rightarrow> Some ValueError
                 | Some n_limit \<Rightarrow> None))
         else None)"

section \<open>\<^verbatim>\<open>OAuth2TokenManager\<close> and \<^verbatim>\<open>APIKeyAuth\<close>\<close>

record oauth2_token_manager =
  token_url :: string
  client_id :: string
  client_secret :: string
  refresh_buffer_seconds :: int
  access_token :: "string option"
  token_expires_at :: "int option"

definition OAuth2TokenManager_init ::
  "string \<Rightarrow> string \<Rightarrow> string \<Rightarrow> int \<Rightarrow> oauth2_token_manager" where
  "OAuth2TokenManager_init url cid secret buffer_seconds =
     \<lparr>token_url = url, client_id = cid, client_secret = secret,
      refresh_buffer_seconds = buffer_seconds,
      access_token = None, token_expires_at = None\<rparr>"

text \<open>The default of the parameter \<^verbatim>\<open>refresh_buffer_seconds\<close>.\<close>

definition default_refresh_buffer_seconds :: int where
  "default_refresh_buffer_seconds = 300"

definition needs_refresh :: "oauth2_token_manager \<Rightarrow> world \<Rightarrow> bool \<times> world" where
  "needs_refresh m w =
     (case token_expires_at m of
        None \<Rightarrow> (True, w)
      | Some expires_at \<Rightarrow>
          if \<not> str_truthy (access_token m) then (True, w)
          else
            let (now, w1) = utcnow w
            in (now \<ge> expires_at - timedelta_seconds (refresh_buffer_seconds m), w1))"

definition fetch_new_token ::
  "oauth2_token_manager \<Rightarrow> world \<Rightarrow> (error + unit) \<times> oauth2_token_manager \<times> world" where
  "fetch_new_token m w =
     (let w1 = w\<lparr>token_posts := Suc (token_posts w)\<rparr>
      in case token_endpoint w (token_posts w) of
           TokenFailed \<Rightarrow> (Inl TokenFetchFailed, m, w1)
         | TokenData td \<Rightarrow>
             (case td_access_token td of
                None \<Rightarrow> (Inl KeyError, m, w1)
              | Some tok \<Rightarrow>
                  let m1 = m\<lparr>access_token := Some tok\<rparr>;
                      expires_in = (case td_expires_in td of None \<Rightarrow> 3600 | Some x \<Rightarrow> x);
                      (now, w2) = utcnow w1
                  in (Inr (),
                      m1\<lparr>token_expires_at := Some (now + timedelta_seconds expires_in)\<rparr>,
                      w2)))"

definition get_access_token ::
  "oauth2_token_manager \<Rightarrow> world \<Rightarrow> (error + string) \<times> oauth2_token_manager \<times> world" where
  "get_access_token m w =
     (let (refresh, w1) = needs_refresh m w;
          (fetched, m1, w2) = (if refresh then fetch_new_token m w1 else (Inr (), m, w1))
      in case fetched of
           Inl e \<Rightarrow> (Inl e, m1, w2)
         | Inr _ \<Rightarrow>
             (case access_token m1 of
                None \<Rightarrow> (Inl NoAccessToken, m1, w2)
              | Some tok \<Rightarrow>
                  if tok = [] then (Inl NoAccessToken, m1, w2) else (Inr tok, m1, w2)))"

record api_key_auth =
  api_key :: string
  header_name :: string

definition APIKeyAuth_init :: "string \<Rightarrow> api_key_auth" where
  "APIKeyAuth_init key = \<lparr>api_key = key, header_name = ''X-API-Key''\<rparr>"

definition get_headers :: "api_key_auth \<Rightarrow> (string \<rightharpoonup> string)" where
  "get_headers a = [header_name a \<mapsto> api_key a]"

section \<open>\<^verbatim>\<open>APIClient\<close>\<close>

record api_client =
  base_url :: string
  auth_manager :: "oauth2_token_manager option"
  api_key_auth :: "api_key_auth option"
  timeout :: int
  rate_limit_handler :: rate_limit_handler
  request_count :: int
  error_count :: int

definition rstrip_slash :: "string \<Rightarrow> string" where
  "rstrip_slash s = rev (dropWhile (\<lambda>c. c = CHR ''/'') (rev s))"

definition lstrip_slash :: "string \<Rightarrow> string" where
  "lstrip_slash s = dropWhile (\<lambda>c. c = CHR ''/'') s"

definition APIClient_init ::
  "string \<Rightarrow> oauth2_token_manager option \<Rightarrow> api_key_auth option \<Rightarrow> int \<Rightarrow> int \<Rightarrow> api_client" where
  "APIClient_init url am ak tmo retries =
     \<lparr>base_url = rstrip_slash url, auth_manager = am, api_key_auth = ak, timeout = tmo,
      rate_limit_handler = \<lparr>max_retries = retries, base_delay = 1\<rparr>,
      request_count = 0, error_count = 0\<rparr>"

text \<open>\<^verbatim>\<open>APIClient._get_headers\<close>. The token manager is an object the client refers to;
  its new state is stored back into the client.\<close>

definition client_get_headers ::
  "api_client \<Rightarrow> world \<Rightarrow> (error + (string \<rightharpoonup> string)) \<times> api_client \<times> world" where
  "client_get_headers c w =
     (let hdrs = [''User-Agent'' \<mapsto> ''SmartSensorPipeline/1.0'', ''Accept'' \<mapsto> ''application/json''];
          (authd, c1, w1) =
            (case auth_manager c of
               None \<Rightarrow> (Inr hdrs, c, w)
             | Some m \<Rightarrow>
                 (case get_access_token m w of
                    (Inl e, m1, w') \<Rightarrow> (Inl e, c\<lparr>auth_manager := Some m1\<rparr>, w')
                  | (Inr tok, m1, w') \<Rightarrow>
                      (Inr (hdrs(''Authorization'' \<mapsto> ''Bearer '' @ tok)),
                       c\<lparr>auth_manager := Some m1\<rparr>, w')))
      in case authd of
           Inl e \<Rightarrow> (Inl e, c1, w1)
         | Inr hdrs1 \<Rightarrow>
             (case api_key_auth c1 of
                None \<Rightarrow> (Inr hdrs1, c1, w1)
              | Some a \<Rightarrow> (Inr (hdrs1 ++ get_headers a), c1, w1)))"

text \<open>\<^verbatim>\<open>response.raise_for_status()\<close> of the HTTP library: an error for 4xx and 5xx.\<close>

definition raise_for_status :: "response \<Rightarrow> error option" where
  "raise_for_status r =
     (if 400 \<le> status_code r \<and> status_code r < 600 then Some (HTTPError (status_code r))
      else None)"

text \<open>
  One pass through the body of the \<^verbatim>\<open>while attempt < max_attempts\<close> loop of
  \<^verbatim>\<open>APIClient.get\<close>. The pass either leaves the loop (\<^verbatim>\<open>return\<close> or an exception that
  propagates) or goes back to the loop test; each of the three places that go back
  (\<^verbatim>\<open>continue\<close> after a 429, \<^verbatim>\<open>continue\<close> after a 401, the end of the \<^verbatim>\<open>Timeout\<close>
  handler) has done \<^verbatim>\<open>attempt += 1\<close>. The three \<^verbatim>\<open>except\<close> clauses catch
  \<^verbatim>\<open>requests\<close> exceptions only: a \<^verbatim>\<open>RuntimeError\<close>, a \<^verbatim>\<open>ValueError\<close> or a \<^verbatim>\<open>KeyError\<close>
  raised inside the \<^verbatim>\<open>try\<close> leaves the call without touching \<open>error_count\<close>.
\<close>

datatype pass =
    Leave "(error + json) \<times> api_client \<times> world"
  | Continue api_client world "string \<rightharpoonup> string"   \<comment> \<open>client, world and \<^verbatim>\<open>headers\<close>\<close>

definition get_pass ::
  "api_client \<Rightarrow> world \<Rightarrow> string \<Rightarrow> (string \<rightharpoonup> json) option \<Rightarrow> (string \<rightharpoonup> string) \<Rightarrow>
   bool \<Rightarrow> int \<Rightarrow> int \<Rightarrow> pass" where
  "get_pass c w url params hdrs retry_on_rate_limit max_attempts attempt =
     (let c1 = c\<lparr>request_count := request_count c + 1\<rparr>;
          (out, w1) = session_request
                        \<lparr>rq_method = GET, rq_url = url, rq_params = params, rq_headers = hdrs,
                         rq_json = None, rq_data = None, rq_timeout = timeout c1\<rparr> w
      in (case out of
            TimedOut \<Rightarrow>
              (let c2 = c1\<lparr>error_count := error_count c1 + 1\<rparr>
               in if attempt \<ge> max_attempts - 1 then Leave (Inl Timeout, c2, w1)
                  else Continue c2 w1 hdrs)
          | Failed \<Rightarrow> Leave (Inl RequestException, c1\<lparr>error_count := error_count c1 + 1\<rparr>, w1)
          | Response r \<Rightarrow>
              if status_code r = 429 \<and> retry_on_rate_limit then
                (case handle_rate_limit (rate_limit_handler c1) r attempt w1 of
                   (Inl e, w2) \<Rightarrow> Leave (Inl e, c1, w2)
                 | (Inr _, w2) \<Rightarrow> Continue c1 w2 hdrs)
              else if status_code r = 401 \<and> auth_manager c1 \<noteq> None then
                (case fetch_new_token (the (auth_manager c1)) w1 of
                   (Inl e, m1, w2) \<Rightarrow> Leave (Inl e, c1\<lparr>auth_manager := Some m1\<rparr>, w2)
                 | (Inr _, m1, w2) \<Rightarrow>
                     (case client_get_headers (c1\<lparr>auth_manager := Some m1\<rparr>) w2 of
                        (Inl e, c2, w3) \<Rightarrow> Leave (Inl e, c2, w3)
                      | (Inr hdrs1, c2, w3) \<Rightarrow> Continue c2 w3 hdrs1))
              else
                (case check_rate_limit_headers r of
                   Some e \<Rightarrow> Leave (Inl e, c1, w1)
                 | None \<Rightarrow>
                     (case raise_for_status r of
                        Some e \<Rightarrow> Leave (Inl e, c1\<lparr>error_count := error_count c1 + 1\<rparr>, w1)
                      | None \<Rightarrow>
                          (case body r of
                             None \<Rightarrow>
                               Leave (Inl RequestException,
                                      c1\<lparr>error_count := error_count c1 + 1\<rparr>, w1)
                           | Some j \<Rightarrow> Leave (Inr j, c1, w1))))))"

text \<open>The loop, with the \<^verbatim>\<open>raise RuntimeError\<close> that follows it.\<close>

function get_loop ::
  "api_client \<Rightarrow> world \<Rightarrow> string \<Rightarrow> (string \<rightharpoonup> json) option \<Rightarrow> (string \<rightharpoonup> string) \<Rightarrow>
   bool \<Rightarrow> int \<Rightarrow> int \<Rightarrow> (error + json) \<times> api_client \<times> world" where
  "get_loop c w url params hdrs retry_on_rate_limit max_attempts attempt =
     (if attempt < max_attempts then
        (case get_pass c w url params hdrs retry_on_rate_limit max_attempts attempt of
           Leave x \<Rightarrow> x
         | Continue c1 w1 hdrs1 \<Rightarrow>
             get_loop c1 w1 url params hdrs1 retry_on_rate_limit max_attempts (attempt + 1))
      else (Inl (RetriesExhausted max_attempts), c, w))"
  by pat_completeness auto
termination
  by (relation "measure (\<lambda>(c, w, url, params, hdrs, retry, max_attempts, attempt).
                   nat (max_attempts - attempt))") auto

declare get_loop.simps [simp del]

definition get ::
  "api_client \<Rightarrow> world \<Rightarrow> string \<Rightarrow> (string \<rightharpoonup> json) option \<Rightarrow> bool \<Rightarrow>
   (error + json) \<times> api_client \<times> world" where
  "get c w endpoint params retry_on_rate_limit =
     (let url = base_url c @ ''/'' @ lstrip_slash endpoint
      in case client_get_headers c w of
           (Inl e, c1, w1) \<Rightarrow> (Inl e, c1, w1)
         | (Inr hdrs, c1, w1) \<Rightarrow>
             get_loop c1 w1 url params hdrs retry_on_rate_limit
               (if retry_on_rate_limit then max_retries (rate_limit_handler c1) else 1) 0)"


subsection \<open>\<^verbatim>\<open>get_metrics\<close>\<close>

text \<open>Python's true division of two integers raises on a zero divisor.\<close>

definition py_truediv :: "int \<Rightarrow> int \<Rightarrow> error + real" where
  "py_truediv a b = (if b = 0 then Inl ZeroDivisionError else Inr (real_of_int a / real_of_int b))"

record metrics =
  m_request_count :: int
  m_error_count :: int
  m_error_rate :: real

definition get_metrics :: "api_client \<Rightarrow> error + metrics" where
  "get_metrics c =
     (case (if request_count c > 0 then py_truediv (error_count c) (request_count c) else Inr 0) of
        Inl e \<Rightarrow> Inl e
      | Inr rate \<Rightarrow>
          Inr \<lparr>m_request_count = request_count c, m_error_count = error_count c,
               m_error_rate = rate\<rparr>)"

subsection \<open>\<^verbatim>\<open>paginate\<close>\<close>

text \<open>
  \<^verbatim>\<open>paginate\<close> is a generator. Calling it runs nothing; each \<^verbatim>\<open>next()\<close> runs its body
  up to the next \<^verbatim>\<open>yield\<close>, to the end of the body (\<^verbatim>\<open>StopIteration\<close>) or to an
  exception. The generator object holds the local variables of the body and where it
  is suspended.
\<close>

datatype gen_phase =
    Created            \<comment> \<open>not started\<close>
  | Suspended json     \<comment> \<open>at the \<^verbatim>\<open>yield\<close>, holding \<^verbatim>\<open>response_data\<close>\<close>
  | Closed             \<comment> \<open>returned or raised\<close>

record paginate_gen =
  pg_endpoint :: string
  pg_params :: "(string \<rightharpoonup> json) option"
  pg_page_size :: int
  pg_max_pages :: "int option"
  pg_page_count :: int
  pg_next_cursor :: json
  pg_phase :: gen_phase

datatype gen_result =
    Yield json
  | StopIteration
  | Raise error

definition paginate ::
  "string \<Rightarrow> (string \<rightharpoonup> json) option \<Rightarrow> int \<Rightarrow> int option \<Rightarrow> paginate_gen" where
  "paginate endpoint params page_size max_pages =
     \<lparr>pg_endpoint = endpoint, pg_params = params, pg_page_size = page_size,
      pg_max_pages = max_pages, pg_page_count = 0, pg_next_cursor = JNull,
      pg_phase = Created\<rparr>"

text \<open>\<^verbatim>\<open>params = params or {}\<close>: \<^verbatim>\<open>None\<close> and the empty dict both give a new dict.\<close>

definition params_or_empty :: "(string \<rightharpoonup> json) option \<Rightarrow> (string \<rightharpoonup> json)" where
  "params_or_empty params = (case params of None \<Rightarrow> Map.empty | Some p \<Rightarrow> p)"

text \<open>The head of the \<^verbatim>\<open>while True\<close> loop, up to the \<^verbatim>\<open>yield\<close>.\<close>

definition fetch_page ::
  "paginate_gen \<Rightarrow> api_client \<Rightarrow> world \<Rightarrow> gen_result \<times> paginate_gen \<times> api_client \<times> world" where
  "fetch_page g c w =
     (let params = params_or_empty (pg_params g);
          params1 = (if truthy (pg_next_cursor g) then params(''cursor'' \<mapsto> pg_next_cursor g)
                     else params);
          g1 = g\<lparr>pg_params := Some params1\<rparr>
      in case get c w (pg_endpoint g1) (Some params1) True of
           (Inl e, c1, w1) \<Rightarrow> (Raise e, g1\<lparr>pg_phase := Closed\<rparr>, c1, w1)
         | (Inr response_data, c1, w1) \<Rightarrow>
             (Yield response_data, g1\<lparr>pg_phase := Suspended response_data\<rparr>, c1, w1))"

text \<open>The test \<^verbatim>\<open>max_pages and page_count >= max_pages\<close>.\<close>

definition reached_max_pages :: "int option \<Rightarrow> int \<Rightarrow> bool" where
  "reached_max_pages max_pages page_count =
     (case max_pages of None \<Rightarrow> False | Some m \<Rightarrow> m \<noteq> 0 \<and> page_count \<ge> m)"

definition gen_next ::
  "paginate_gen \<Rightarrow> api_client \<Rightarrow> world \<Rightarrow> gen_result \<times> paginate_gen \<times> api_client \<times> world" where
  "gen_next g c w =
     (case pg_phase g of
        Closed \<Rightarrow> (StopIteration, g, c, w)
      | Created \<Rightarrow>
          fetch_page
            (g\<lparr>pg_params := Some ((params_or_empty (pg_params g))(''limit'' \<mapsto> JInt (pg_page_size g))),
               pg_page_count := 0, pg_next_cursor := JNull\<rparr>) c w
      | Suspended response_data \<Rightarrow>
          (let g1 = g\<lparr>pg_page_count := pg_page_count g + 1\<rparr>
           in case dict_get response_data ''next_cursor'' JNull of
                Inl e \<Rightarrow> (Raise e, g1\<lparr>pg_phase := Closed\<rparr>, c, w)
              | Inr next_cursor \<Rightarrow>
                  (case dict_get response_data ''has_more'' (JBool False) of
                     Inl e \<Rightarrow> (Raise e, g1\<lparr>pg_next_cursor := next_cursor, pg_phase := Closed\<rparr>, c, w)
                   | Inr has_more \<Rightarrow>
                       (let g2 = g1\<lparr>pg_next_cursor := next_cursor\<rparr>
                        in if \<not> truthy next_cursor \<and> \<not> truthy has_more
                           then (StopIteration, g2\<lparr>pg_phase := Closed\<rparr>, c, w)
                           else if reached_max_pages (pg_max_pages g2) (pg_page_count g2)
                           then (StopIteration, g2\<lparr>pg_phase := Closed\<rparr>, c, w)
                           else fetch_page g2 c w))))"

text \<open>
  A caller that iterates the generator, \<^verbatim>\<open>for page in client.paginate(...)\<close>, for at
  most \<open>n\<close> calls of \<^verbatim>\<open>next()\<close>: the pages it got and how the iteration stands.
\<close>

datatype ending =
    Exhausted          \<comment> \<open>the generator returned\<close>
  | Raised error       \<comment> \<open>the generator raised\<close>
  | Pending            \<comment> \<open>the generator is suspended, more may come\<close>

fun iterate ::
  "nat \<Rightarrow> paginate_gen \<Rightarrow> api_client \<Rightarrow> world \<Rightarrow>
   (json list \<times> ending) \<times> paginate_gen \<times> api_client \<times> world" where
  "iterate 0 g c w = (([], Pending), g, c, w)"
| "iterate (Suc n) g c w =
     (case gen_next g c w of
        (Yield page, g1, c1, w1) \<Rightarrow>
          (case iterate n g1 c1 w1 of
             ((pages, e), g2, c2, w2) \<Rightarrow> ((page # pages, e), g2, c2, w2))
      | (StopIteration, g1, c1, w1) \<Rightarrow> (([], Exhausted), g1, c1, w1)
      | (Raise e, g1, c1, w1) \<Rightarrow> (([], Raised e), g1, c1, w1))"

subsection \<open>Sequences of calls on one client\<close>




section \<open>Predicates used in the statements and proofs\<close>

text \<open>The request that one pass of the loop in \<^verbatim>\<open>get\<close> sends.\<close>

definition get_request ::
  "api_client \<Rightarrow> string \<Rightarrow> (string \<rightharpoonup> json) option \<Rightarrow> (string \<rightharpoonup> string) \<Rightarrow> request" where
  "get_request c url params hdrs =
     \<lparr>rq_method = GET, rq_url = url, rq_params = params, rq_headers = hdrs,
      rq_json = None, rq_data = None, rq_timeout = timeout c\<rparr>"


text \<open>The exceptions that building the headers or refreshing the token can raise.\<close>

fun auth_error :: "error \<Rightarrow> bool" where
  "auth_error TokenFetchFailed = True"
| "auth_error KeyError = True"
| "auth_error NoAccessToken = True"
| "auth_error _ = False"

text \<open>What the credential code leaves alone in the world, and in the client.\<close>

definition auth_frame :: "world \<Rightarrow> world \<Rightarrow> bool" where
  "auth_frame w w' \<longleftrightarrow>
     http w' = http w \<and> http_log w' = http_log w \<and> slept w' = slept w \<and>
     token_endpoint w' = token_endpoint w \<and> clock w' = clock w \<and>
     token_posts w \<le> token_posts w' \<and> ticks w \<le> ticks w'"

definition client_frame :: "api_client \<Rightarrow> api_client \<Rightarrow> bool" where
  "client_frame c c' \<longleftrightarrow>
     request_count c' = request_count c \<and> error_count c' = error_count c \<and>
     rate_limit_handler c' = rate_limit_handler c \<and> timeout c' = timeout c \<and>
     base_url c' = base_url c \<and> api_key_auth c' = api_key_auth c \<and>
     (auth_manager c' = None) = (auth_manager c = None)"

text \<open>What a sleep leaves alone.\<close>

definition sleep_frame :: "world \<Rightarrow> world \<Rightarrow> bool" where
  "sleep_frame w w' \<longleftrightarrow>
     http w' = http w \<and> http_log w' = http_log w \<and>
     token_endpoint w' = token_endpoint w \<and> clock w' = clock w \<and>
     token_posts w' = token_posts w \<and> ticks w' = ticks w"







text \<open>The headers that \<^verbatim>\<open>_get_headers\<close> builds around an access token.\<close>

definition headers_with_token :: "string \<Rightarrow> api_key_auth option \<Rightarrow> (string \<rightharpoonup> string)" where
  "headers_with_token tok ak =
     (let hdrs = [''User-Agent'' \<mapsto> ''SmartSensorPipeline/1.0'', ''Accept'' \<mapsto> ''application/json'',
                  ''Authorization'' \<mapsto> ''Bearer '' @ tok]
      in case ak of None \<Rightarrow> hdrs | Some a \<Rightarrow> hdrs ++ get_headers a)"

section \<open>Example inputs\<close>

text \<open>A world from what the API, the token endpoint and the clock will answer.\<close>

definition world_init ::
  "(nat \<Rightarrow> outcome) \<Rightarrow> (nat \<Rightarrow> token_outcome) \<Rightarrow> (nat \<Rightarrow> int) \<Rightarrow> world" where
  "world_init net tok clk =
     \<lparr>http = net, http_log = [], token_endpoint = tok, token_posts = 0,
      clock = clk, ticks = 0, slept = []\<rparr>"

text \<open>An API that answers the listed outcomes in turn and then fails.\<close>

definition scripted :: "outcome list \<Rightarrow> nat \<Rightarrow> outcome" where
  "scripted os n = (if n < length os then os ! n else Failed)"


text \<open>A 429 response with the given \<^verbatim>\<open>Retry-After\<close> header, and a response with no
  headers.\<close>

definition rate_limited :: "string option \<Rightarrow> response" where
  "rate_limited retry_after =
     \<lparr>status_code = 429, headers = Map.empty(''Retry-After'' := retry_after), body = None\<rparr>"

definition reply :: "int \<Rightarrow> json \<Rightarrow> response" where
  "reply s j = \<lparr>status_code = s, headers = Map.empty, body = Some j\<rparr>"

text \<open>A client without credentials, with the given \<^verbatim>\<open>max_retries\<close>.\<close>

definition plain_client :: "int \<Rightarrow> api_client" where
  "plain_client n = APIClient_init ''https://api.example.com/'' None None 30 n"

text \<open>A token manager holding a token that expires 600 seconds after time 0.\<close>

definition held_token :: oauth2_token_manager where
  "held_token =
     (OAuth2TokenManager_init ''https://auth.example.com/token'' ''id'' ''secret''
        default_refresh_buffer_seconds)
     \<lparr>access_token := Some ''abc'', token_expires_at := Some (timedelta_seconds 600)\<rparr>"






text \<open>A client whose token manager holds a token, and a session in which the first
  request is answered 401 and the second 200, with a token endpoint that issues tokens
  of the given lifetime.\<close>

definition auth_client :: api_client where
  "auth_client = APIClient_init ''https://api.example.com'' (Some held_token) None 30 3"

definition token_reply :: "int \<Rightarrow> token_outcome" where
  "token_reply expires_in = TokenData \<lparr>td_access_token = Some ''new'', td_expires_in = Some expires_in\<rparr>"

definition expired_session :: "int \<Rightarrow> world" where
  "expired_session expires_in =
     world_init (scripted [Response (reply 401 JNull), Response (reply 200 (JInt 7))])
       (\<lambda>_. token_reply expires_in) (\<lambda>_. 0)"

text \<open>Pages: one that carries the cursor \<^verbatim>\<open>"abc"\<close>, one that ends the listing, one whose
  cursor is the empty string. Worlds: the two-page listing of the specification, and
  a listing whose every page carries the same cursor.\<close>

definition cursor_page :: json where
  "cursor_page = JObj [(''data'', JArr [JInt 1]), (''next_cursor'', JStr ''abc'')]"

definition last_page :: json where
  "last_page = JObj [(''data'', JArr [JInt 2]), (''has_more'', JBool False)]"

definition empty_cursor_page :: json where
  "empty_cursor_page = JObj [(''data'', JArr []), (''next_cursor'', JStr ''''), (''has_more'', JBool False)]"

definition two_page_world :: world where
  "two_page_world =
     world_init (scripted [Response (reply 200 cursor_page), Response (reply 200 last_page)])
       (\<lambda>_. TokenFailed) (\<lambda>_. 0)"

definition stuck_cursor_world :: world where
  "stuck_cursor_world =
     world_init (\<lambda>_. Response (reply 200 cursor_page)) (\<lambda>_. TokenFailed) (\<lambda>_. 0)"

definition empty_cursor_world :: world where
  "empty_cursor_world =
     world_init (\<lambda>_. Response (reply 200 empty_cursor_page)) (\<lambda>_. TokenFailed) (\<lambda>_. 0)"

section \<open>Facts about the parts\<close>

lemma auth_frame_refl: "auth_frame w w"
  by (simp add: auth_frame_def)

lemma auth_frame_trans: "auth_frame w w1 \<Longrightarrow> auth_frame w1 w2 \<Longrightarrow> auth_frame w w2"
  by (simp add: auth_frame_def)


lemma handle_rate_limit_frame:
  assumes "handle_rate_limit h r a w = (x, w')"
  shows "http w' = http w" "http_log w' = http_log w" "token_posts w' = token_posts w"
    "token_endpoint w' = token_endpoint w" "clock w' = clock w" "ticks w' = ticks w"
  using assms
  by (auto simp: handle_rate_limit_def time_sleep_def Let_def split: if_splits sum.splits option.splits)

lemma fetch_new_token_frame: "fetch_new_token m w = (x, m', w') \<Longrightarrow> auth_frame w w'"
  by (auto simp: fetch_new_token_def utcnow_def Let_def auth_frame_def split: token_outcome.splits option.splits prod.splits)

lemma needs_refresh_frame: "needs_refresh m w = (b, w') \<Longrightarrow> auth_frame w w'"
  by (auto simp: needs_refresh_def utcnow_def Let_def auth_frame_def split: option.splits if_splits prod.splits)

lemma get_access_token_frame: "get_access_token m w = (x, m', w') \<Longrightarrow> auth_frame w w'"
  by (auto simp: get_access_token_def Let_def split: prod.splits if_splits sum.splits option.splits
      dest!: needs_refresh_frame fetch_new_token_frame intro: auth_frame_trans)

lemma client_get_headers_frame: "client_get_headers c w = (x, c', w') \<Longrightarrow> auth_frame w w'"
  by (auto simp: client_get_headers_def Let_def auth_frame_refl split: prod.splits sum.splits option.splits
      dest!: get_access_token_frame)

lemma client_get_headers_client:
  assumes "client_get_headers c w = (x, c', w')"
  shows "request_count c' = request_count c" "error_count c' = error_count c"
    "rate_limit_handler c' = rate_limit_handler c" "timeout c' = timeout c"
    "base_url c' = base_url c" "api_key_auth c' = api_key_auth c"
    "(auth_manager c' = None) = (auth_manager c = None)"
  using assms
  by (auto simp: client_get_headers_def Let_def split: prod.splits sum.splits option.splits)



lemma fetch_new_token_error: "fetch_new_token m w = (Inl e, m', w') \<Longrightarrow> auth_error e"
  by (auto simp: fetch_new_token_def utcnow_def Let_def split: token_outcome.splits option.splits prod.splits)

lemma get_access_token_error: "get_access_token m w = (Inl e, m', w') \<Longrightarrow> auth_error e"
  by (auto simp: get_access_token_def Let_def split: prod.splits if_splits sum.splits option.splits
      dest!: fetch_new_token_error)

lemma client_get_headers_error: "client_get_headers c w = (Inl e, c', w') \<Longrightarrow> auth_error e"
  by (auto simp: client_get_headers_def Let_def split: prod.splits sum.splits option.splits
      dest!: get_access_token_error)

lemma check_rate_limit_headers_error: "check_rate_limit_headers r = Some e \<Longrightarrow> e = ValueError"
  by (auto simp: check_rate_limit_headers_def Let_def split: if_splits option.splits)

lemma handle_rate_limit_error:
  "handle_rate_limit h r a w = (Inl e, w') \<Longrightarrow> e = ValueError \<or> (e = RateLimitExceeded a \<and> a \<ge> max_retries h)"
  by (auto simp: handle_rate_limit_def time_sleep_def Let_def split: if_splits sum.splits option.splits)


lemma handle_rate_limit_facts: "handle_rate_limit h r a w = (x, w') \<Longrightarrow> sleep_frame w w'"
  by (auto simp: sleep_frame_def dest: handle_rate_limit_frame)

lemma client_get_headers_facts:
  "client_get_headers c w = (x, c', w') \<Longrightarrow> auth_frame w w' \<and> client_frame c c'"
  by (auto simp: client_frame_def dest: client_get_headers_frame client_get_headers_client)


lemma auth_error_cases: "auth_error e \<Longrightarrow> e = TokenFetchFailed \<or> e = KeyError \<or> e = NoAccessToken"
  by (cases e) auto

lemma fetch_new_token_facts:
  "fetch_new_token m w = (x, m', w') \<Longrightarrow> auth_frame w w' \<and> (\<forall>e. x = Inl e \<longrightarrow> auth_error e)"
  by (auto dest: fetch_new_token_frame fetch_new_token_error)

lemma client_get_headers_all:
  "client_get_headers c w = (x, c', w') \<Longrightarrow>
     auth_frame w w' \<and> client_frame c c' \<and> (\<forall>e. x = Inl e \<longrightarrow> auth_error e)"
  by (auto dest: client_get_headers_facts client_get_headers_error)

lemma get_pass_Continue:
  assumes "get_pass c w url ps h retry maxa a = Continue c' w' h'"
  shows "http w' = http w" "token_endpoint w' = token_endpoint w" "clock w' = clock w"
    "http_log w' = http_log w @ [get_request c url ps h]"
    "request_count c' = request_count c + 1"
    "rate_limit_handler c' = rate_limit_handler c" "timeout c' = timeout c"
    "base_url c' = base_url c" "api_key_auth c' = api_key_auth c"
    "(auth_manager c' = None) = (auth_manager c = None)"
    "error_count c' = error_count c + (if http w (length (http_log w)) = TimedOut then 1 else 0)"
  using assms
  unfolding get_pass_def Let_def session_request_def get_request_def
  by (auto split: if_splits outcome.splits prod.splits sum.splits option.splits
       dest!: handle_rate_limit_facts fetch_new_token_frame client_get_headers_facts
       simp: auth_frame_def client_frame_def sleep_frame_def)






lemma get_pass_Leave_RateLimitExceeded:
  assumes "get_pass c w url ps h retry maxa a = Leave (Inl (RateLimitExceeded n), c', w')"
  shows "retry \<and> a \<ge> max_retries (rate_limit_handler c)"
  using assms
  unfolding get_pass_def Let_def session_request_def raise_for_status_def
  by (auto split: if_splits outcome.splits prod.splits sum.splits option.splits
       dest!: handle_rate_limit_error fetch_new_token_facts client_get_headers_all
         check_rate_limit_headers_error auth_error_cases)


lemma get_loop_exhausted:
  "\<not> a < maxa \<Longrightarrow> get_loop c w url ps h retry maxa a = (Inl (RetriesExhausted maxa), c, w)"
  by (subst get_loop.simps) simp

lemma get_loop_Leave:
  "a < maxa \<Longrightarrow> get_pass c w url ps h retry maxa a = Leave x \<Longrightarrow>
   get_loop c w url ps h retry maxa a = x"
  by (subst get_loop.simps) simp

lemma get_loop_Continue:
  "a < maxa \<Longrightarrow> get_pass c w url ps h retry maxa a = Continue c1 w1 h1 \<Longrightarrow>
   get_loop c w url ps h retry maxa a = get_loop c1 w1 url ps h1 retry maxa (a + 1)"
  by (subst get_loop.simps) simp

lemma get_loop_cases [case_names exhausted leave continue]:
  assumes "\<And>c w h a. \<not> a < maxa \<Longrightarrow> P c w h a (Inl (RetriesExhausted maxa), c, w)"
    and "\<And>c w h a x. a < maxa \<Longrightarrow> get_pass c w url ps h retry maxa a = Leave x \<Longrightarrow> P c w h a x"
    and "\<And>c w h a c1 w1 h1 x. a < maxa \<Longrightarrow>
           get_pass c w url ps h retry maxa a = Continue c1 w1 h1 \<Longrightarrow>
           x = get_loop c1 w1 url ps h1 retry maxa (a + 1) \<Longrightarrow>
           P c1 w1 h1 (a + 1) x \<Longrightarrow> P c w h a x"
  shows "P c w h a (get_loop c w url ps h retry maxa a)"
  using assms
proof (induction c w url ps h retry maxa a rule: get_loop.induct)
  case (1 c w url ps h retry maxa a)
  show ?case
  proof (cases "a < maxa")
    case False
    then show ?thesis using "1.prems"(1) by (simp add: get_loop_exhausted)
  next
    case True
    show ?thesis
    proof (cases "get_pass c w url ps h retry maxa a")
      case (Leave x)
      then show ?thesis using True "1.prems"(2) by (simp add: get_loop_Leave)
    next
      case (Continue c1 w1 h1)
      have "P c1 w1 h1 (a + 1) (get_loop c1 w1 url ps h1 retry maxa (a + 1))"
        using "1.IH"[OF True Continue] "1.prems" by blast
      then show ?thesis
        using True Continue "1.prems"(3) by (simp add: get_loop_Continue)
    qed
  qed
qed










lemma get_loop_no_RateLimitExceeded:
  assumes "retry \<longrightarrow> maxa \<le> max_retries (rate_limit_handler c)"
  shows "fst (get_loop c w url ps h retry maxa a) \<noteq> Inl (RateLimitExceeded n)"
proof -
  let ?P = "\<lambda>c w h a x. (retry \<longrightarrow> maxa \<le> max_retries (rate_limit_handler c)) \<longrightarrow>
      fst x \<noteq> Inl (RateLimitExceeded n)"
  have "?P c w h a (get_loop c w url ps h retry maxa a)"
  proof (rule get_loop_cases[where P = ?P])
    fix c w h a
    show "?P c w h a (Inl (RetriesExhausted maxa), c, w)" by simp
  next
    fix c w h a x
    assume a: "a < maxa" and p: "get_pass c w url ps h retry maxa a = Leave x"
    obtain res c' w' where x: "x = (res, c', w')" by (cases x)
    show "?P c w h a x"
      using get_pass_Leave_RateLimitExceeded[of c w url ps h retry maxa a n c' w'] p x a
      by auto
  next
    fix c w h a c1 w1 h1 x
    assume a: "a < maxa" and p: "get_pass c w url ps h retry maxa a = Continue c1 w1 h1"
      and ih: "?P c1 w1 h1 (a + 1) x"
    show "?P c w h a x"
      using ih get_pass_Continue(6)[OF p] by simp
  qed
  then show ?thesis using assms by simp
qed







lemmas eval_defs = get_def get_pass_def client_get_headers_def session_request_def
  handle_rate_limit_def py_pow2_def time_sleep_def check_rate_limit_headers_def raise_for_status_def
  plain_client_def APIClient_init_def world_init_def scripted_def reply_def rate_limited_def
  rstrip_slash_def lstrip_slash_def Let_def


lemma get_never_RateLimitExceeded:
  "fst (get c w endpoint params retry) \<noteq> Inl (RateLimitExceeded n)"
proof -
  obtain x c1 w1 where hd: "client_get_headers c w = (x, c1, w1)"
    by (metis prod_cases3)
  note fr = client_get_headers_all[OF hd]
  show ?thesis
  proof (cases x)
    case (Inl e)
    then have "auth_error e" using fr by simp
    then have "e \<noteq> RateLimitExceeded n" by auto
    then show ?thesis using hd Inl by (simp add: get_def)
  next
    case (Inr hdrs)
    then show ?thesis
      using hd get_loop_no_RateLimitExceeded[of retry
          "if retry then max_retries (rate_limit_handler c1) else 1" c1 w1
          "base_url c @ ''/'' @ lstrip_slash endpoint" params hdrs 0 n]
      by (simp add: get_def)
  qed
qed










lemmas auth_eval_defs = get_access_token_def needs_refresh_def fetch_new_token_def utcnow_def
  timedelta_seconds_def held_token_def OAuth2TokenManager_init_def
  default_refresh_buffer_seconds_def auth_client_def token_reply_def expired_session_def

lemma refresh_pass:
  assumes o: "http w (length (http_log w)) = Response r" and s: "status_code r = 401"
    and m: "auth_manager c = Some m"
    and t: "token_endpoint w (token_posts w) = TokenData td" "td_access_token td = Some tok" "tok \<noteq> []"
    and fresh: "clock w (Suc (ticks w)) <
           clock w (ticks w) + timedelta_seconds (case td_expires_in td of None \<Rightarrow> 3600 | Some x \<Rightarrow> x)
             - timedelta_seconds (refresh_buffer_seconds m)"
  shows "get_pass c w url params hdrs retry max_attempts attempt =
     Continue
       (c\<lparr>request_count := request_count c + 1,
          auth_manager := Some (m\<lparr>access_token := Some tok,
             token_expires_at := Some (clock w (ticks w) +
                timedelta_seconds (case td_expires_in td of None \<Rightarrow> 3600 | Some x \<Rightarrow> x))\<rparr>)\<rparr>)
       (w\<lparr>http_log := http_log w @ [get_request c url params hdrs],
          token_posts := Suc (token_posts w), ticks := Suc (Suc (ticks w))\<rparr>)
       (headers_with_token tok (api_key_auth c))"
proof -
  let ?w1 = "w\<lparr>http_log := http_log w @ [get_request c url params hdrs]\<rparr>"
  let ?m1 = "m\<lparr>access_token := Some tok,
             token_expires_at := Some (clock w (ticks w) +
                timedelta_seconds (case td_expires_in td of None \<Rightarrow> 3600 | Some x \<Rightarrow> x))\<rparr>"
  let ?w2 = "?w1\<lparr>token_posts := Suc (token_posts w), ticks := Suc (ticks w)\<rparr>"
  let ?c1 = "c\<lparr>request_count := request_count c + 1\<rparr>"
  have f: "fetch_new_token m ?w1 = (Inr (), ?m1, ?w2)"
    using t by (simp add: fetch_new_token_def utcnow_def Let_def)
  have a: "get_access_token ?m1 ?w2 = (Inr tok, ?m1, ?w2\<lparr>ticks := Suc (Suc (ticks w))\<rparr>)"
    using t(3) fresh by (simp add: get_access_token_def needs_refresh_def utcnow_def)
  have h: "client_get_headers (?c1\<lparr>auth_manager := Some ?m1\<rparr>) ?w2 =
      (Inr (headers_with_token tok (api_key_auth c)), ?c1\<lparr>auth_manager := Some ?m1\<rparr>,
       ?w2\<lparr>ticks := Suc (Suc (ticks w))\<rparr>)"
    using a by (simp add: client_get_headers_def headers_with_token_def Let_def split: option.splits)
  show ?thesis
    using o s m f h by (simp add: get_pass_def session_request_def get_request_def Let_def)
qed

lemma success_pass:
  assumes o: "http w (length (http_log w)) = Response r"
    and s: "200 \<le> status_code r" "status_code r < 300"
    and k: "check_rate_limit_headers r = None" and b: "body r = Some j"
  shows "get_pass c w url params hdrs retry max_attempts attempt =
     Leave (Inr j, c\<lparr>request_count := request_count c + 1\<rparr>,
            w\<lparr>http_log := http_log w @ [get_request c url params hdrs]\<rparr>)"
  using assms
  by (simp add: get_pass_def session_request_def get_request_def raise_for_status_def Let_def)

lemmas page_eval_defs = gen_next_def fetch_page_def paginate_def params_or_empty_def
  reached_max_pages_def cursor_page_def last_page_def empty_cursor_page_def
  two_page_world_def stuck_cursor_world_def empty_cursor_world_def

lemma numeral_2_Suc: "(2::nat) = Suc (Suc 0)" by simp
lemma numeral_3_Suc: "(3::nat) = Suc (Suc (Suc 0))" by simp


lemma fetch_page_result:
  "fetch_page g c w = (x, g', c', w') \<Longrightarrow>
     (\<exists>page. x = Yield page \<and> pg_phase g' = Suspended page) \<or> (\<exists>e. x = Raise e \<and> pg_phase g' = Closed)"
  by (auto simp: fetch_page_def Let_def split: prod.splits sum.splits)

lemma fetch_page_gen:
  "fetch_page g c w = (x, g', c', w') \<Longrightarrow>
     pg_max_pages g' = pg_max_pages g \<and> pg_page_count g' = pg_page_count g"
  by (auto simp: fetch_page_def Let_def split: prod.splits sum.splits)

lemma fetch_page_not_stop: "fst (fetch_page g c w) \<noteq> StopIteration"
  using fetch_page_result[of g c w] by (metis gen_result.distinct(1,5) prod.collapse)

lemma gen_next_Suspended_Yield:
  assumes "pg_phase g = Suspended p" and "pg_max_pages g = Some m" and "m \<noteq> 0"
    and "gen_next g c w = (Yield q, g', c', w')"
  shows "pg_phase g' = Suspended q \<and> pg_max_pages g' = Some m \<and>
         pg_page_count g' = pg_page_count g + 1 \<and> pg_page_count g + 1 < m"
  using assms
  by (auto simp: gen_next_def Let_def reached_max_pages_def
      split: sum.splits if_splits dest: fetch_page_result fetch_page_gen)

lemma gen_next_Created_Yield:
  assumes "pg_phase g = Created" and "gen_next g c w = (Yield q, g', c', w')"
  shows "pg_phase g' = Suspended q \<and> pg_max_pages g' = pg_max_pages g \<and> pg_page_count g' = 0"
  using assms
  by (auto simp: gen_next_def dest: fetch_page_result fetch_page_gen)

lemma iterate_Suspended_capped:
  assumes "pg_phase g = Suspended p" and "pg_max_pages g = Some m" and "pg_page_count g < m"
    and "0 \<le> pg_page_count g"
  shows "length (fst (fst (iterate n g c w))) \<le> nat (m - 1 - pg_page_count g) \<and>
         (nat (m - 1 - pg_page_count g) < n \<longrightarrow> snd (fst (iterate n g c w)) \<noteq> Pending)"
  using assms
proof (induction n arbitrary: g p c w)
  case 0
  then show ?case by simp
next
  case (Suc n)
  obtain x g1 c1 w1 where s: "gen_next g c w = (x, g1, c1, w1)"
    by (metis prod_cases4)
  show ?case
  proof (cases x)
    case (Yield q)
    have m0: "m \<noteq> 0" using Suc.prems by auto
    note y = gen_next_Suspended_Yield[OF Suc.prems(1,2) m0 s[unfolded Yield]]
    have ih: "length (fst (fst (iterate n g1 c1 w1))) \<le> nat (m - 1 - pg_page_count g1) \<and>
         (nat (m - 1 - pg_page_count g1) < n \<longrightarrow> snd (fst (iterate n g1 c1 w1)) \<noteq> Pending)"
      using Suc.IH[of g1 q c1 w1] y Suc.prems(4) by simp
    obtain ps e g2 c2 w2 where r: "iterate n g1 c1 w1 = ((ps, e), g2, c2, w2)"
      by (metis prod_cases4 prod.collapse)
    have "iterate (Suc n) g c w = ((q # ps, e), g2, c2, w2)"
      using s Yield r by simp
    then show ?thesis
      using ih r y by auto
  next
    case StopIteration
    then show ?thesis using s by simp
  next
    case (Raise e)
    then show ?thesis using s by simp
  qed
qed

text \<open>Over a listing whose every page carries the same cursor, and without a cap, the
  iteration never ends: every \<^verbatim>\<open>next()\<close> yields another page.\<close>

lemma get_page_stuck:
  assumes h: "http w = (\<lambda>_. Response (reply 200 cursor_page))"
    and c: "auth_manager c = None" "api_key_auth c = None" "0 < max_retries (rate_limit_handler c)"
  shows "\<exists>c' w'. get c w endpoint params True = (Inr cursor_page, c', w') \<and>
           http w' = http w \<and> auth_manager c' = None \<and> api_key_auth c' = None \<and>
           rate_limit_handler c' = rate_limit_handler c"
proof -
  let ?hdrs = "[''User-Agent'' \<mapsto> ''SmartSensorPipeline/1.0'', ''Accept'' \<mapsto> ''application/json'']"
  let ?url = "base_url c @ ''/'' @ lstrip_slash endpoint"
  have hd: "client_get_headers c w = (Inr ?hdrs, c, w)"
    using c by (simp add: client_get_headers_def)
  have o: "http w (length (http_log w)) = Response (reply 200 cursor_page)"
    using h by simp
  have r: "200 \<le> status_code (reply 200 cursor_page)" "status_code (reply 200 cursor_page) < 300"
    "check_rate_limit_headers (reply 200 cursor_page) = None"
    "body (reply 200 cursor_page) = Some cursor_page"
    by (simp_all add: reply_def check_rate_limit_headers_def)
  have "get_loop c w ?url params ?hdrs True (max_retries (rate_limit_handler c)) 0 =
      (Inr cursor_page, c\<lparr>request_count := request_count c + 1\<rparr>,
       w\<lparr>http_log := http_log w @ [get_request c ?url params ?hdrs]\<rparr>)"
    using get_loop_Leave[OF c(3) success_pass[OF o r]] .
  then show ?thesis
    using hd c by (simp add: get_def)
qed

lemma gen_next_stuck:
  assumes h: "http w = (\<lambda>_. Response (reply 200 cursor_page))"
    and c: "auth_manager c = None" "api_key_auth c = None" "0 < max_retries (rate_limit_handler c)"
    and g: "pg_max_pages g = None" "pg_phase g = Created \<or> pg_phase g = Suspended cursor_page"
  shows "\<exists>g' c' w'. gen_next g c w = (Yield cursor_page, g', c', w') \<and>
           http w' = http w \<and> auth_manager c' = None \<and> api_key_auth c' = None \<and>
           rate_limit_handler c' = rate_limit_handler c \<and>
           pg_max_pages g' = None \<and> pg_phase g' = Suspended cursor_page"
proof -
  have f: "\<exists>g' c' w'. fetch_page g0 c w = (Yield cursor_page, g', c', w') \<and>
           http w' = http w \<and> auth_manager c' = None \<and> api_key_auth c' = None \<and>
           rate_limit_handler c' = rate_limit_handler c \<and>
           pg_max_pages g' = None \<and> pg_phase g' = Suspended cursor_page"
    if "pg_max_pages g0 = None" for g0
  proof -
    let ?ps = "if truthy (pg_next_cursor g0)
               then (params_or_empty (pg_params g0))(''cursor'' \<mapsto> pg_next_cursor g0)
               else params_or_empty (pg_params g0)"
    obtain c' w' where "get c w (pg_endpoint g0) (Some ?ps) True = (Inr cursor_page, c', w')"
      "http w' = http w" "auth_manager c' = None" "api_key_auth c' = None"
      "rate_limit_handler c' = rate_limit_handler c"
      using get_page_stuck[OF h c] by blast
    then show ?thesis
      using that by (simp add: fetch_page_def Let_def)
  qed
  from g(2) show ?thesis
  proof
    assume "pg_phase g = Created"
    then show ?thesis
      using f[of "g\<lparr>pg_params := Some ((params_or_empty (pg_params g))(''limit'' \<mapsto> JInt (pg_page_size g))),
               pg_page_count := 0, pg_next_cursor := JNull\<rparr>"] g(1)
      by (simp add: gen_next_def)
  next
    assume "pg_phase g = Suspended cursor_page"
    then show ?thesis
      using f[of "g\<lparr>pg_page_count := pg_page_count g + 1, pg_next_cursor := JStr ''abc''\<rparr>"] g(1)
      by (simp add: gen_next_def cursor_page_def reached_max_pages_def Let_def)
  qed
qed

lemma iterate_stuck:
  assumes "http w = (\<lambda>_. Response (reply 200 cursor_page))"
    and "auth_manager c = None" "api_key_auth c = None" "0 < max_retries (rate_limit_handler c)"
    and "pg_max_pages g = None" "pg_phase g = Created \<or> pg_phase g = Suspended cursor_page"
  shows "fst (iterate n g c w) = (replicate n cursor_page, Pending)"
  using assms
proof (induction n arbitrary: g c w)
  case 0
  then show ?case by simp
next
  case (Suc n)
  obtain g' c' w' where s: "gen_next g c w = (Yield cursor_page, g', c', w')"
    "http w' = http w" "auth_manager c' = None" "api_key_auth c' = None"
    "rate_limit_handler c' = rate_limit_handler c"
    "pg_max_pages g' = None" "pg_phase g' = Suspended cursor_page"
    using gen_next_stuck[OF Suc.prems] by blast
  have "fst (iterate n g' c' w') = (replicate n cursor_page, Pending)"
    using Suc.IH[of w' c' g'] s Suc.prems by simp
  then show ?case
    using s(1) by (auto split: prod.splits)
qed

lemma repeated_cursor_never_ends:
  "fst (iterate n (paginate ''items'' None 100 None) (plain_client 3) stuck_cursor_world) =
     (replicate n cursor_page, Pending)"
  by (rule iterate_stuck)
     (simp_all add: stuck_cursor_world_def world_init_def plain_client_def APIClient_init_def paginate_def)

lemma gen_next_Raise_closes:
  "gen_next g c w = (Raise e, g', c', w') \<Longrightarrow> pg_phase g' = Closed"
  by (auto simp: gen_next_def Let_def split: gen_phase.splits sum.splits if_splits
      dest: fetch_page_result)

section \<open>The claims\<close>







text \<open>
  C4, as the claim states it, fails: over pages that all carry the cursor \<^verbatim>\<open>"abc"\<close> the
  third \<^verbatim>\<open>next()\<close> yields a third page, requested with the same cursor as the second,
  and the generator is still suspended; nothing is raised.
\<close>

theorem repeated_cursor_counterexample:
  "fst (iterate 3 (paginate ''items'' None 100 None) (plain_client 3) stuck_cursor_world) =
     ([cursor_page, cursor_page, cursor_page], Pending) \<and>
   map rq_params
     (http_log (snd (snd (snd (iterate 3 (paginate ''items'' None 100 None) (plain_client 3)
         stuck_cursor_world))))) =
   [Some [''limit'' \<mapsto> JInt 100],
    Some [''limit'' \<mapsto> JInt 100, ''cursor'' \<mapsto> JStr ''abc''],
    Some [''limit'' \<mapsto> JInt 100, ''cursor'' \<mapsto> JStr ''abc'']]"
  by (simp add: numeral_3_Suc eval_defs page_eval_defs get_loop.simps)

text \<open>
  C4, amended. Whatever the pages carry, a repeated cursor included, \<^verbatim>\<open>paginate\<close> with
  a cap \<^verbatim>\<open>max_pages = m\<close>, \<open>m \<ge> 1\<close>, yields at most \<open>m\<close> pages, and \<open>m + 1\<close> calls of
  \<^verbatim>\<open>next()\<close> end the iteration.
\<close>

theorem paginate_capped:
  assumes "0 < m"
  shows "length (fst (fst (iterate n (paginate endpoint params page_size (Some m)) c w))) \<le> nat m \<and>
         (nat m < n \<longrightarrow>
            snd (fst (iterate n (paginate endpoint params page_size (Some m)) c w)) \<noteq> Pending)"
proof (cases n)
  case 0
  then show ?thesis by simp
next
  case (Suc k)
  let ?g = "paginate endpoint params page_size (Some m)"
  obtain x g1 c1 w1 where s: "gen_next ?g c w = (x, g1, c1, w1)"
    by (metis prod_cases4)
  have cr: "pg_phase ?g = Created" "pg_max_pages ?g = Some m"
    by (simp_all add: paginate_def)
  show ?thesis
  proof (cases x)
    case (Yield q)
    note y = gen_next_Created_Yield[OF cr(1) s[unfolded Yield]]
    have "length (fst (fst (iterate k g1 c1 w1))) \<le> nat (m - 1 - pg_page_count g1) \<and>
         (nat (m - 1 - pg_page_count g1) < k \<longrightarrow> snd (fst (iterate k g1 c1 w1)) \<noteq> Pending)"
      using iterate_Suspended_capped[of g1 q m k c1 w1] y cr(2) assms by simp
    then have ih: "length (fst (fst (iterate k g1 c1 w1))) \<le> nat (m - 1) \<and>
         (nat (m - 1) < k \<longrightarrow> snd (fst (iterate k g1 c1 w1)) \<noteq> Pending)"
      using y by simp
    obtain ps e g2 c2 w2 where r: "iterate k g1 c1 w1 = ((ps, e), g2, c2, w2)"
      by (metis prod_cases4 prod.collapse)
    have "iterate n ?g c w = ((q # ps, e), g2, c2, w2)"
      using s Yield r Suc by simp
    then show ?thesis
      using ih r Suc assms by auto
  next
    case StopIteration
    then show ?thesis using s Suc by simp
  next
    case (Raise e)
    then show ?thesis using s Suc by simp
  qed
qed

theorem paginate_capped_witness:
  "(0::int) < 2 \<and>
   length (fst (fst (iterate 3 (paginate ''items'' None 100 (Some 2)) (plain_client 3)
      stuck_cursor_world))) \<le> 2 \<and>
   fst (iterate 3 (paginate ''items'' None 100 (Some 2)) (plain_client 3) stuck_cursor_world) =
     ([cursor_page, cursor_page], Exhausted)"
proof -
  have "fst (iterate 3 (paginate ''items'' None 100 (Some 2)) (plain_client 3) stuck_cursor_world) =
     ([cursor_page, cursor_page], Exhausted)"
    by (simp add: numeral_3_Suc eval_defs page_eval_defs get_loop.simps)
  moreover have "length (fst (fst (iterate 3 (paginate ''items'' None 100 (Some 2)) (plain_client 3)
      stuck_cursor_world))) \<le> nat 2"
    using paginate_capped[of 2 3 "''items''" None 100 "plain_client 3" stuck_cursor_world] by simp
  ultimately show ?thesis by simp
qed

text \<open>
  C5, as the claim states it, fails: when the token endpoint issues tokens that live
  60 seconds and the refresh buffer is 300 seconds, one 401 response leads to two
  token exchanges (the forced one, and one more when the headers are rebuilt).
\<close>

theorem refresh_counterexample:
  "fst (get auth_client (expired_session 60) ''data'' None True) = Inr (JInt 7) \<and>
   length (http_log (snd (snd (get auth_client (expired_session 60) ''data'' None True)))) = 2 \<and>
   token_posts (snd (snd (get auth_client (expired_session 60) ''data'' None True))) = 2"
  by (simp add: eval_defs auth_eval_defs get_loop.simps)

text \<open>
  C5, amended. A pass of the loop that receives a 401 while a token manager is attached,
  when the token exchange succeeds and the fresh token is outside the refresh buffer
  at the time the headers are rebuilt: exactly one token exchange is made, nothing is
  slept, the request is counted and no error is, and the loop goes on with the rebuilt
  headers, which carry the new token. If an attempt remains and the next response is a
  2xx with a JSON body, the call returns that body, still with one token exchange and no
  sleep, the second request carrying the rebuilt headers.
\<close>

theorem get_refresh_on_401:
  assumes "attempt < max_attempts"
    and "http w (length (http_log w)) = Response r" and "status_code r = 401"
    and "auth_manager c = Some m"
    and "token_endpoint w (token_posts w) = TokenData td" and "td_access_token td = Some tok"
    and "tok \<noteq> []"
    and "clock w (Suc (ticks w)) <
           clock w (ticks w) + timedelta_seconds (case td_expires_in td of None \<Rightarrow> 3600 | Some x \<Rightarrow> x)
             - timedelta_seconds (refresh_buffer_seconds m)"
  shows "\<exists>c1 w1.
           get_pass c w url params hdrs retry max_attempts attempt =
             Continue c1 w1 (headers_with_token tok (api_key_auth c)) \<and>
           token_posts w1 = Suc (token_posts w) \<and> slept w1 = slept w \<and>
           http_log w1 = http_log w @ [get_request c url params hdrs] \<and>
           request_count c1 = request_count c + 1 \<and> error_count c1 = error_count c \<and>
           (\<forall>r2 j. attempt + 1 < max_attempts \<and>
               http w (Suc (length (http_log w))) = Response r2 \<and>
               200 \<le> status_code r2 \<and> status_code r2 < 300 \<and>
               check_rate_limit_headers r2 = None \<and> body r2 = Some j \<longrightarrow>
               (\<exists>c2 w2. get_loop c w url params hdrs retry max_attempts attempt = (Inr j, c2, w2) \<and>
                  token_posts w2 = Suc (token_posts w) \<and> slept w2 = slept w \<and>
                  http_log w2 = http_log w @
                    [get_request c url params hdrs,
                     get_request c url params (headers_with_token tok (api_key_auth c))]))"
proof -
  let ?h1 = "headers_with_token tok (api_key_auth c)"
  let ?c1 = "c\<lparr>request_count := request_count c + 1,
          auth_manager := Some (m\<lparr>access_token := Some tok,
             token_expires_at := Some (clock w (ticks w) +
                timedelta_seconds (case td_expires_in td of None \<Rightarrow> 3600 | Some x \<Rightarrow> x))\<rparr>)\<rparr>"
  let ?w1 = "w\<lparr>http_log := http_log w @ [get_request c url params hdrs],
          token_posts := Suc (token_posts w), ticks := Suc (Suc (ticks w))\<rparr>"
  have p: "get_pass c w url params hdrs retry max_attempts attempt = Continue ?c1 ?w1 ?h1"
    using refresh_pass[OF assms(2-8)] .
  have l: "get_loop c w url params hdrs retry max_attempts attempt =
      get_loop ?c1 ?w1 url params ?h1 retry max_attempts (attempt + 1)"
    using get_loop_Continue[OF assms(1) p] .
  have second: "\<exists>c2 w2. get_loop c w url params hdrs retry max_attempts attempt = (Inr j, c2, w2) \<and>
                  token_posts w2 = Suc (token_posts w) \<and> slept w2 = slept w \<and>
                  http_log w2 = http_log w @
                    [get_request c url params hdrs, get_request c url params ?h1]"
    if q: "attempt + 1 < max_attempts \<and>
               http w (Suc (length (http_log w))) = Response r2 \<and>
               200 \<le> status_code r2 \<and> status_code r2 < 300 \<and>
               check_rate_limit_headers r2 = None \<and> body r2 = Some j" for r2 j
  proof -
    have o2: "http ?w1 (length (http_log ?w1)) = Response r2"
      using q by simp
    have "get_pass ?c1 ?w1 url params ?h1 retry max_attempts (attempt + 1) =
        Leave (Inr j, ?c1\<lparr>request_count := request_count ?c1 + 1\<rparr>,
               ?w1\<lparr>http_log := http_log ?w1 @ [get_request ?c1 url params ?h1]\<rparr>)"
      using success_pass[OF o2] q by blast
    then have "get_loop c w url params hdrs retry max_attempts attempt =
        (Inr j, ?c1\<lparr>request_count := request_count ?c1 + 1\<rparr>,
               ?w1\<lparr>http_log := http_log ?w1 @ [get_request ?c1 url params ?h1]\<rparr>)"
      using l q get_loop_Leave by simp
    moreover have "get_request ?c1 url params ?h1 = get_request c url params ?h1"
      by (simp add: get_request_def)
    ultimately show ?thesis by simp
  qed
  have first: "get_pass c w url params hdrs retry max_attempts attempt = Continue ?c1 ?w1 ?h1 \<and>
           token_posts ?w1 = Suc (token_posts w) \<and> slept ?w1 = slept w \<and>
           http_log ?w1 = http_log w @ [get_request c url params hdrs] \<and>
           request_count ?c1 = request_count c + 1 \<and> error_count ?c1 = error_count c"
    using p by simp
  show ?thesis
    using first second by blast
qed


theorem get_refresh_on_401_witness:
  "fst (get_loop auth_client (expired_session 3600) ''https://api.example.com/data'' None
          (headers_with_token ''abc'' None) True 3 0) = Inr (JInt 7) \<and>
   token_posts (snd (snd (get_loop auth_client (expired_session 3600) ''https://api.example.com/data'' None
          (headers_with_token ''abc'' None) True 3 0))) = 1 \<and>
   slept (snd (snd (get_loop auth_client (expired_session 3600) ''https://api.example.com/data'' None
          (headers_with_token ''abc'' None) True 3 0))) = [] \<and>
   map rq_headers (http_log (snd (snd (get_loop auth_client (expired_session 3600)
          ''https://api.example.com/data'' None (headers_with_token ''abc'' None) True 3 0)))) =
     [headers_with_token ''abc'' None, headers_with_token ''new'' None]"
proof -
  let ?w = "expired_session 3600"
  let ?td = "\<lparr>td_access_token = Some ''new'', td_expires_in = Some 3600\<rparr>"
  have w: "http ?w (length (http_log ?w)) = Response (reply 401 JNull)"
    "http ?w (Suc (length (http_log ?w))) = Response (reply 200 (JInt 7))"
    "token_endpoint ?w (token_posts ?w) = TokenData ?td"
    "token_posts ?w = 0" "slept ?w = []" "http_log ?w = []"
    by (simp_all add: expired_session_def world_init_def scripted_def token_reply_def)
  have c: "auth_manager auth_client = Some held_token" "api_key_auth auth_client = None"
    by (simp_all add: auth_client_def APIClient_init_def)
  have f: "clock ?w (Suc (ticks ?w)) <
           clock ?w (ticks ?w) + timedelta_seconds (case td_expires_in ?td of None \<Rightarrow> 3600 | Some x \<Rightarrow> x)
             - timedelta_seconds (refresh_buffer_seconds held_token)"
    by (simp add: auth_eval_defs world_init_def)
  have r: "status_code (reply 401 JNull) = 401"
    "200 \<le> status_code (reply 200 (JInt 7))" "status_code (reply 200 (JInt 7)) < 300"
    "check_rate_limit_headers (reply 200 (JInt 7)) = None" "body (reply 200 (JInt 7)) = Some (JInt 7)"
    by (simp_all add: reply_def check_rate_limit_headers_def)
  have n: "(0::int) < 3" "''new'' \<noteq> []" "td_access_token ?td = Some ''new''" "(0::int) + 1 < 3"
    by simp_all
  from get_refresh_on_401[OF n(1) w(1) r(1) c(1) w(3) n(3) n(2) f,
      of "''https://api.example.com/data''" None "headers_with_token ''abc'' None" True]
  obtain c2 w2 where
    "get_loop auth_client ?w ''https://api.example.com/data'' None
          (headers_with_token ''abc'' None) True 3 0 = (Inr (JInt 7), c2, w2)"
    "token_posts w2 = Suc (token_posts ?w)" "slept w2 = slept ?w"
    "http_log w2 = http_log ?w @
       [get_request auth_client ''https://api.example.com/data'' None (headers_with_token ''abc'' None),
        get_request auth_client ''https://api.example.com/data'' None
          (headers_with_token ''new'' (api_key_auth auth_client))]"
    using w(2) r(2-5) n(4) by blast
  then show ?thesis
    using w(4-6) c(2) by (simp add: get_request_def)
qed



text \<open>
  C7, as the claim states it, fails: with \<^verbatim>\<open>max_pages=0\<close> one page has been fetched and
  \<open>1 \<ge> 0\<close>, yet a second page is fetched (zero is no cap); and a page whose cursor is
  present but empty ends the iteration.
\<close>

theorem page_stop_counterexample:
  "fst (iterate 2 (paginate ''items'' None 100 (Some 0)) (plain_client 3) stuck_cursor_world) =
     ([cursor_page, cursor_page], Pending) \<and>
   fst (iterate 2 (paginate ''items'' None 100 None) (plain_client 3) empty_cursor_world) =
     ([empty_cursor_page], Exhausted)"
  by (simp add: numeral_2_Suc eval_defs page_eval_defs get_loop.simps)

text \<open>
  C7, amended. The first \<^verbatim>\<open>next()\<close> always fetches a page. After a page (a JSON object),
  the next \<^verbatim>\<open>next()\<close> ends the iteration exactly when the page's \<^verbatim>\<open>next_cursor\<close> is
  falsy (absent, null or empty) and its \<^verbatim>\<open>has_more\<close> is falsy (absent defaults to
  false), or when \<^verbatim>\<open>max_pages\<close> is set, is not 0, and the number of pages fetched has
  reached it. A \<^verbatim>\<open>next()\<close> that raises closes the generator. The witness runs the two examples of the claim: two pages over the
  two-page listing, one page with \<^verbatim>\<open>max_pages=1\<close> over an unending cursor stream.
\<close>

theorem gen_next_stops:
  "(pg_phase g = Created \<longrightarrow> fst (gen_next g c w) \<noteq> StopIteration) \<and>
   (\<forall>page next_cursor has_more.
      pg_phase g = Suspended page \<and>
      dict_get page ''next_cursor'' JNull = Inr next_cursor \<and>
      dict_get page ''has_more'' (JBool False) = Inr has_more \<longrightarrow>
      (fst (gen_next g c w) = StopIteration) =
        ((\<not> truthy next_cursor \<and> \<not> truthy has_more) \<or>
         (\<exists>m. pg_max_pages g = Some m \<and> m \<noteq> 0 \<and> m \<le> pg_page_count g + 1))) \<and>
   (\<forall>e. fst (gen_next g c w) = Raise e \<longrightarrow> pg_phase (fst (snd (gen_next g c w))) = Closed)"
proof (intro conjI allI impI)
  assume "pg_phase g = Created"
  then show "fst (gen_next g c w) \<noteq> StopIteration"
    by (simp add: gen_next_def fetch_page_not_stop)
next
  fix page next_cursor has_more
  assume a: "pg_phase g = Suspended page \<and>
      dict_get page ''next_cursor'' JNull = Inr next_cursor \<and>
      dict_get page ''has_more'' (JBool False) = Inr has_more"
  have r: "reached_max_pages (pg_max_pages g) (pg_page_count g + 1) =
      (\<exists>m. pg_max_pages g = Some m \<and> m \<noteq> 0 \<and> m \<le> pg_page_count g + 1)"
    by (simp add: reached_max_pages_def split: option.splits)
  show "(fst (gen_next g c w) = StopIteration) =
        ((\<not> truthy next_cursor \<and> \<not> truthy has_more) \<or>
         (\<exists>m. pg_max_pages g = Some m \<and> m \<noteq> 0 \<and> m \<le> pg_page_count g + 1))"
    unfolding r[symmetric] using a
    by (simp add: gen_next_def Let_def fetch_page_not_stop)
next
  fix e
  assume "fst (gen_next g c w) = Raise e"
  then show "pg_phase (fst (snd (gen_next g c w))) = Closed"
    using gen_next_Raise_closes[of g c w e "fst (snd (gen_next g c w))"
        "fst (snd (snd (gen_next g c w)))" "snd (snd (snd (gen_next g c w)))"]
    by (metis prod.collapse)
qed

theorem gen_next_stops_witness:
  "fst (gen_next ((paginate ''items'' None 100 None)\<lparr>pg_phase := Suspended last_page\<rparr>)
         (plain_client 3) two_page_world) = StopIteration \<and>
   fst (iterate 3 (paginate ''items'' None 100 None) (plain_client 3) two_page_world) =
     ([cursor_page, last_page], Exhausted) \<and>
   fst (iterate 2 (paginate ''items'' None 100 (Some 1)) (plain_client 3) stuck_cursor_world) =
     ([cursor_page], Exhausted)"
proof -
  let ?g = "(paginate ''items'' None 100 None)\<lparr>pg_phase := Suspended last_page\<rparr>"
  have d: "pg_phase ?g = Suspended last_page"
    "dict_get last_page ''next_cursor'' JNull = Inr JNull"
    "dict_get last_page ''has_more'' (JBool False) = Inr (JBool False)"
    by (simp_all add: last_page_def)
  have "fst (gen_next ?g (plain_client 3) two_page_world) = StopIteration"
    using gen_next_stops[of ?g "plain_client 3" two_page_world] d by simp
  moreover have "fst (iterate 3 (paginate ''items'' None 100 None) (plain_client 3) two_page_world) =
     ([cursor_page, last_page], Exhausted)"
    by (simp add: numeral_3_Suc eval_defs page_eval_defs get_loop.simps)
  moreover have "fst (iterate 2 (paginate ''items'' None 100 (Some 1)) (plain_client 3) stuck_cursor_world) =
     ([cursor_page], Exhausted)"
    by (simp add: numeral_2_Suc eval_defs page_eval_defs get_loop.simps)
  ultimately show ?thesis by simp
qed




text \<open>
  C9. \<^verbatim>\<open>get_metrics\<close> never fails: the division is only made when
  \<open>request_count > 0\<close>, and with \<open>request_count = 0\<close> the error rate reported is 0.
\<close>

theorem get_metrics_guard:
  "(\<exists>m. get_metrics c = Inr m) \<and>
   (request_count c = 0 \<longrightarrow>
      get_metrics c = Inr \<lparr>m_request_count = 0, m_error_count = error_count c, m_error_rate = 0\<rparr>)"
  by (simp add: get_metrics_def py_truediv_def)

theorem get_metrics_guard_witness:
  "request_count (APIClient_init ''https://api.example.com'' None None 30 3) = 0 \<and>
   get_metrics (APIClient_init ''https://api.example.com'' None None 30 3) =
     Inr \<lparr>m_request_count = 0, m_error_count = 0, m_error_rate = 0\<rparr>"
  using get_metrics_guard[of "APIClient_init ''https://api.example.com'' None None 30 3"]
  by (simp add: APIClient_init_def)



end
